theory Spec2Isabelle
  imports Main
begin

section \<open>Python values, strings and exceptions\<close>

text \<open>
  A Python \<open>str\<close> is a sequence of Unicode code points, and \<open>len\<close> counts code points.
  The model keeps that: a string is a list of code points, so that lone surrogates
  (which \<open>str\<close> may hold and UTF-8 cannot encode) and the \<open>\uXXXX\<close> escapes of JSON
  are values of the model. ASCII framing text is written \<open>lit ''...''\<close>.
\<close>

type_synonym pystr = "nat list"

abbreviation lit :: "string \<Rightarrow> pystr" where
  "lit s \<equiv> map of_char s"

text \<open>
  An exception is its class name and the text \<open>str(e)\<close>. Only subclasses of
  \<open>Exception\<close> are modelled (the ones \<open>except Exception\<close> catches); interpreter
  signals such as \<open>KeyboardInterrupt\<close> and resource limits (recursion depth, memory)
  are outside the model.
\<close>

datatype exn = PyExc (exn_class: string) (exn_str: pystr)

text \<open>
  The values that travel through the service: the request field, the provider's
  output and decoded JSON. A \<open>dict\<close> is an association list in insertion order with
  distinct keys. A float is kept as the literal it was read from.
\<close>

datatype pyval =
    PNone
  | PBool bool
  | PInt int
  | PFloat pystr
  | PStr pystr
  | PList "pyval list"
  | PDict "(pystr \<times> pyval) list"


fun isinstance_dict :: "pyval \<Rightarrow> bool" where
  "isinstance_dict (PDict d) = True"
| "isinstance_dict v = False"

text \<open>Truthiness of an optional string (\<open>None\<close> and \<open>""\<close> are falsy).\<close>

fun str_truthy :: "pystr option \<Rightarrow> bool" where
  "str_truthy None = False"
| "str_truthy (Some s) = (s \<noteq> [])"

text \<open>\<open>a or b\<close> on optional strings.\<close>

definition py_or :: "pystr option \<Rightarrow> pystr option \<Rightarrow> pystr option" where
  "py_or a b = (if str_truthy a then a else b)"

section \<open>model.py: configuration and the lazily loaded model\<close>

record config =
  MODEL_NAME :: pystr
  GEMINI_API_KEY :: "pystr option"
  GEMINI_MODEL :: pystr

text \<open>The three module-level assignments of model.py, read from the process environment.\<close>

definition load_config :: "(string \<rightharpoonup> pystr) \<Rightarrow> config" where
  "load_config getenv =
     \<lparr> MODEL_NAME = (case getenv ''BUG_MODEL'' of
                       None \<Rightarrow> lit ''./fine_tuned_model_small'' | Some v \<Rightarrow> v),
       GEMINI_API_KEY = py_or (getenv ''GEMINI_API_KEY'') (getenv ''GOOGLE_API_KEY''),
       GEMINI_MODEL = (case getenv ''GEMINI_MODEL'' of
                         None \<Rightarrow> lit ''models/text-bison-001'' | Some v \<Rightarrow> v) \<rparr>"

text \<open>
  \<open>_device\<close> holds either a \<open>torch.device\<close> or the plain string \<open>"cpu"\<close>; the code
  tells them apart with \<open>isinstance(_device, torch.device)\<close>.
\<close>

datatype device = TorchDevice pystr | StrDevice pystr

text \<open>
  The module globals \<open>_tokenizer\<close>, \<open>_model\<close>, \<open>_device\<close>. Loaded objects are
  handles (natural numbers); \<open>None\<close> is \<open>None\<close>.
\<close>

record mstate =
  tokenizer :: "nat option"
  model :: "nat option"
  device :: "device option"

text \<open>
  What the libraries and the network answer. Each field is the outcome of one
  external call: \<open>Inl e\<close> (or \<open>Some e\<close>) when it raises \<open>e\<close>.
\<close>

record ml_host =
  torch_importable :: bool
  cuda_is_available :: bool
  has_mps :: bool
  mps_is_available :: bool
  import_transformers :: "exn option"
  tokenizer_from_pretrained :: "pystr \<Rightarrow> exn + nat"
  model_from_pretrained :: "pystr \<Rightarrow> exn + nat"
  model_to :: "nat \<Rightarrow> device \<Rightarrow> exn option"
  local_generate :: "nat \<Rightarrow> nat \<Rightarrow> device \<Rightarrow> pystr \<Rightarrow> int \<Rightarrow> exn + pyval"
  remote_generate :: "pystr \<Rightarrow> pystr \<Rightarrow> pystr \<Rightarrow> int \<Rightarrow> exn + pyval"

definition choose_device :: "ml_host \<Rightarrow> device" where
  "choose_device h =
     (if \<not> torch_importable h then StrDevice (lit ''cpu'')
      else if cuda_is_available h then TorchDevice (lit ''cuda'')
      else if has_mps h \<and> mps_is_available h then TorchDevice (lit ''mps'')
      else TorchDevice (lit ''cpu''))"

text \<open>
  \<open>_ensure_model\<close>: the early return, then the assignments in source order. An
  exception leaves the globals assigned so far in place.
\<close>

definition move_to_device :: "ml_host \<Rightarrow> nat \<Rightarrow> mstate \<Rightarrow> mstate" where
  "move_to_device h m st =
     (if \<not> torch_importable h then st\<lparr>device := Some (StrDevice (lit ''cpu''))\<rparr>
      else (case device st of
              Some (TorchDevice d) \<Rightarrow>
                (case model_to h m (TorchDevice d) of
                   Some e \<Rightarrow> st\<lparr>device := Some (StrDevice (lit ''cpu''))\<rparr>
                 | None \<Rightarrow> st)
            | _ \<Rightarrow> st))"

definition ensure_model :: "config \<Rightarrow> ml_host \<Rightarrow> mstate \<Rightarrow> (exn + unit) \<times> mstate" where
  "ensure_model cfg h st =
     (if model st \<noteq> None \<and> tokenizer st \<noteq> None then (Inr (), st)
      else
        let st1 = st\<lparr>device := Some (choose_device h)\<rparr> in
        (case import_transformers h of
           Some e \<Rightarrow> (Inl e, st1)
         | None \<Rightarrow>
            (case tokenizer_from_pretrained h (MODEL_NAME cfg) of
               Inl e \<Rightarrow> (Inl e, st1)
             | Inr t \<Rightarrow>
                let st2 = st1\<lparr>tokenizer := Some t\<rparr> in
                (case model_from_pretrained h (MODEL_NAME cfg) of
                   Inl e \<Rightarrow> (Inl e, st2)
                 | Inr m \<Rightarrow> (Inr (), move_to_device h m (st2\<lparr>model := Some m\<rparr>))))))"

text \<open>
  \<open>_generate_review_gemini\<close>: the key check of the source, then the HTTP exchange
  and the reading of its answer, which are the host's \<open>remote_generate\<close>.
\<close>

definition generate_review_gemini :: "config \<Rightarrow> ml_host \<Rightarrow> pystr \<Rightarrow> int \<Rightarrow> exn + pyval" where
  "generate_review_gemini cfg h prompt max_new_tokens =
     (case GEMINI_API_KEY cfg of
        None \<Rightarrow> Inl (PyExc ''RuntimeError''
                  (lit ''Gemini API key not configured (set GEMINI_API_KEY or GOOGLE_API_KEY)''))
      | Some api_key \<Rightarrow>
          if api_key = [] then Inl (PyExc ''RuntimeError''
                  (lit ''Gemini API key not configured (set GEMINI_API_KEY or GOOGLE_API_KEY)''))
          else remote_generate h api_key (GEMINI_MODEL cfg) prompt max_new_tokens)"

definition dev_review :: "exn \<Rightarrow> pystr" where
  "dev_review e =
     lit ''[DEV REVIEW] Model unavailable: '' @ exn_str e
     @ lit ''\<newline>\<newline>This is a fallback review used for development.''"

definition generate_review ::
  "config \<Rightarrow> ml_host \<Rightarrow> mstate \<Rightarrow> pystr \<Rightarrow> int \<Rightarrow> (exn + pyval) \<times> mstate" where
  "generate_review cfg h st prompt max_new_tokens =
     (if str_truthy (GEMINI_API_KEY cfg)
      then (generate_review_gemini cfg h prompt max_new_tokens, st)
      else
        (case ensure_model cfg h st of
           (Inl e, st') \<Rightarrow> (Inr (PStr (dev_review e)), st')
         | (Inr u, st') \<Rightarrow>
            (case (tokenizer st', model st', device st') of
               (Some t, Some m, Some d) \<Rightarrow> (local_generate h t m d prompt max_new_tokens, st')
             | _ \<Rightarrow> (Inl (PyExc ''AssertionError'' []), st'))))"

section \<open>analysis.py: the static-analysis run\<close>

definition MAX_ANALYSIS_CODE :: nat where
  "MAX_ANALYSIS_CODE = 20000"

text \<open>
  \<open>str.encode("utf-8")\<close>. A surrogate code point (U+D800 to U+DFFF) has no UTF-8
  encoding and makes the call raise \<open>UnicodeEncodeError\<close> (its text is shortened here
  to the reason it ends with).
\<close>

definition utf8_char :: "nat \<Rightarrow> nat list option" where
  "utf8_char c =
     (if c < 0x80 then Some [c]
      else if c < 0x800 then Some [0xC0 + c div 64, 0x80 + c mod 64]
      else if 0xD800 \<le> c \<and> c \<le> 0xDFFF then None
      else if c < 0x10000 then
        Some [0xE0 + c div 4096, 0x80 + (c div 64) mod 64, 0x80 + c mod 64]
      else if c < 0x110000 then
        Some [0xF0 + c div 262144, 0x80 + (c div 4096) mod 64,
              0x80 + (c div 64) mod 64, 0x80 + c mod 64]
      else None)"

fun encode_utf8 :: "pystr \<Rightarrow> exn + nat list" where
  "encode_utf8 [] = Inr []"
| "encode_utf8 (c # cs) =
     (case utf8_char c of
        None \<Rightarrow> Inl (PyExc ''UnicodeEncodeError'' (lit ''surrogates not allowed''))
      | Some bs \<Rightarrow>
         (case encode_utf8 cs of Inl e \<Rightarrow> Inl e | Inr rest \<Rightarrow> Inr (bs @ rest)))"

text \<open>The file system: the bytes stored under each existing path.\<close>

type_synonym files = "pystr \<rightharpoonup> nat list"

record proc =
  returncode :: int
  stdout :: pystr
  stderr :: pystr

text \<open>
  What the operating system answers: the name \<open>tempfile\<close> picks (or the error it
  raises), whether writing the scratch file raises, what \<open>subprocess.run\<close> with its
  10-second timeout does for an argument vector (it raises, for a missing tool or a
  timeout, or it completes), and whether \<open>os.remove\<close> raises. The tool and other
  processes leave the files alone.
\<close>

record os_host =
  tmp_name :: "exn + pystr"
  tmp_write :: "exn option"
  subprocess_run :: "pystr list \<Rightarrow> exn + proc"
  os_remove :: "pystr \<Rightarrow> exn option"

text \<open>
  \<open>NamedTemporaryFile(delete=False, suffix=".py")\<close>: creates a file that did not
  exist, empty, and keeps it on disk when closed. No file can be opened under the
  empty name.
\<close>

definition named_temporary_file :: "os_host \<Rightarrow> files \<Rightarrow> exn + (pystr \<times> files)" where
  "named_temporary_file h fs =
     (case tmp_name h of
        Inl e \<Rightarrow> Inl e
      | Inr p \<Rightarrow>
          if p = [] then Inl (PyExc ''FileNotFoundError'' (lit ''No such file or directory''))
          else if fs p \<noteq> None
          then Inl (PyExc ''FileExistsError'' (lit ''No usable temporary file name found''))
          else Inr (p, fs(p \<mapsto> [])))"

text \<open>The \<open>try\<close> body and its \<open>except Exception\<close>: the text the function will return.\<close>

definition pylint_output :: "os_host \<Rightarrow> pystr \<Rightarrow> pystr" where
  "pylint_output h tmp_path =
     (case subprocess_run h [lit ''pylint'', tmp_path, lit ''--score=n'',
                             lit ''--disable=C0114,C0115,C0116''] of
        Inl e \<Rightarrow> exn_str e
      | Inr pr \<Rightarrow>
          if stdout pr \<noteq> [] then stdout pr
          else if stderr pr \<noteq> [] then stderr pr
          else [])"

text \<open>The \<open>finally\<close> block: an exception of \<open>os.remove\<close> is swallowed.\<close>

definition remove_scratch :: "os_host \<Rightarrow> files \<Rightarrow> pystr \<Rightarrow> files" where
  "remove_scratch h fs tmp_path =
     (if tmp_path \<noteq> [] \<and> fs tmp_path \<noteq> None
      then (case os_remove h tmp_path of Some e \<Rightarrow> fs | None \<Rightarrow> fs(tmp_path := None))
      else fs)"

text \<open>
  \<open>run_static_analysis\<close>. The \<open>with\<close> block that creates and writes the scratch file
  stands before the \<open>try\<close>: what it raises reaches the caller, and the file stays.
\<close>

definition run_static_analysis :: "os_host \<Rightarrow> files \<Rightarrow> pyval \<Rightarrow> (exn + pystr) \<times> files" where
  "run_static_analysis h fs code =
     (case code of
        PStr s \<Rightarrow>
          if length s > MAX_ANALYSIS_CODE then (Inr (lit ''Code too large for analysis''), fs)
          else
            (case named_temporary_file h fs of
               Inl e \<Rightarrow> (Inl e, fs)
             | Inr (tmp_path, fs1) \<Rightarrow>
                (case encode_utf8 s of
                   Inl e \<Rightarrow> (Inl e, fs1)
                 | Inr bytes \<Rightarrow>
                    (case tmp_write h of
                       Some e \<Rightarrow> (Inl e, fs1)
                     | None \<Rightarrow>
                        let fs2 = fs1(tmp_path \<mapsto> bytes);
                            output = pylint_output h tmp_path
                        in (Inr output, remove_scratch h fs2 tmp_path))))
      | _ \<Rightarrow> (Inr (lit ''Invalid code format''), fs))"

text \<open>
  Two hosts for concrete runs: one whose linter process dies without printing
  anything, and one on which the scratch file cannot be removed.
\<close>

definition silent_host :: os_host where
  "silent_host =
     \<lparr> tmp_name = Inr (lit ''/tmp/tmpk3v9x1.py''),
       tmp_write = None,
       subprocess_run = (\<lambda>argv. Inr \<lparr> returncode = - 9, stdout = [], stderr = [] \<rparr>),
       os_remove = (\<lambda>p. None) \<rparr>"


section \<open>Formatted string literals\<close>

text \<open>
  The prompts of app.py are f-strings. An f-string is a sequence of literal pieces
  and replacement fields \<open>{expr:spec}\<close>; the format spec of a field is again such a
  sequence. A field is evaluated as \<open>format(value, spec)\<close>, and every value formatted
  in this program is a \<open>str\<close>, so what follows is \<open>str.__format__\<close>: the format-spec
  mini-language \<open>[[fill]align][sign][z][#][0][width][grouping][.precision][type]\<close>,
  read for specs of ASCII characters (all specs of the program are constants).
\<close>

abbreviation ch :: "char \<Rightarrow> nat" where
  "ch c \<equiv> of_char c"

definition ascii_digit :: "nat \<Rightarrow> bool" where
  "ascii_digit c = (48 \<le> c \<and> c \<le> 57)"

fun digits_value :: "nat \<Rightarrow> pystr \<Rightarrow> nat" where
  "digits_value acc [] = acc"
| "digits_value acc (c # cs) = digits_value (10 * acc + (c - 48)) cs"

definition get_integer :: "pystr \<Rightarrow> nat option \<times> pystr" where
  "get_integer s =
     (let ds = takeWhile ascii_digit s
      in (if ds = [] then None else Some (digits_value 0 ds), dropWhile ascii_digit s))"

definition is_alignment_token :: "nat \<Rightarrow> bool" where
  "is_alignment_token c = (c = ch CHR ''<'' \<or> c = ch CHR ''>'' \<or> c = ch CHR ''='' \<or> c = ch CHR ''^'')"

definition is_sign_element :: "nat \<Rightarrow> bool" where
  "is_sign_element c = (c = ch CHR '' '' \<or> c = ch CHR ''+'' \<or> c = ch CHR ''-'')"

record format_spec =
  fill_char :: nat
  align :: nat
  sign :: "nat option"
  no_neg_0 :: bool
  alternate :: bool
  width :: "nat option"
  thousands_separators :: "nat option"
  precision :: "nat option"
  ftype :: nat

definition value_error :: "pystr \<Rightarrow> exn" where
  "value_error m = PyExc ''ValueError'' m"

text \<open>
  The texts of the errors are those of CPython 3.11. A character is shown in quotes
  (the quote is code point 39), a type code outside the printable ASCII range as
  \<open>\x\<close> followed by its hexadecimal digits.
\<close>

definition quoted :: "pystr \<Rightarrow> pystr" where
  "quoted s = [39] @ s @ [39]"

definition hex_char :: "nat \<Rightarrow> nat" where
  "hex_char d = (if d < 10 then 48 + d else 87 + d)"

definition hex_text :: "nat \<Rightarrow> pystr" where
  "hex_text n =
     (let ds = dropWhile (\<lambda>d. d = 0) (map (\<lambda>k. (n div 16 ^ k) mod 16) [5, 4, 3, 2, 1, 0])
      in if ds = [] then [48] else map hex_char ds)"

definition type_code :: "nat \<Rightarrow> pystr" where
  "type_code t = (if 32 < t \<and> t < 128 then quoted [t] else quoted ([92, 120] @ hex_text t))"

definition invalid_format_specifier :: "pystr \<Rightarrow> exn" where
  "invalid_format_specifier spec =
     value_error (lit ''Invalid format specifier '' @ quoted spec
                  @ lit '' for object of type '' @ quoted (lit ''str''))"

definition both_separators :: exn where
  "both_separators =
     value_error (lit ''Cannot specify both '' @ quoted (lit '','') @ lit '' and ''
                  @ quoted (lit ''_'') @ lit ''.'')"

text \<open>Whether the next character of the spec is \<open>c\<close>, and the spec after consuming it.\<close>

definition starts_with :: "nat \<Rightarrow> pystr \<Rightarrow> bool" where
  "starts_with c s = (case s of [] \<Rightarrow> False | d # ds \<Rightarrow> d = c)"

definition parse_fill_align :: "pystr \<Rightarrow> (nat \<times> nat \<times> bool) \<times> pystr" where
  "parse_fill_align s =
     (case s of
        f # a # rest \<Rightarrow>
          if is_alignment_token a then ((f, a, True), rest)
          else if is_alignment_token f then ((ch CHR '' '', f, False), a # rest)
          else ((ch CHR '' '', ch CHR ''<'', False), s)
      | [f] \<Rightarrow>
          if is_alignment_token f then ((ch CHR '' '', f, False), [])
          else ((ch CHR '' '', ch CHR ''<'', False), s)
      | [] \<Rightarrow> ((ch CHR '' '', ch CHR ''<'', False), s))"

definition thousands_ok :: "nat \<Rightarrow> nat \<Rightarrow> bool" where
  "thousands_ok sep t =
     (t \<in> set (lit ''defgEG%F'') \<or> (t \<in> set (lit ''boxX'') \<and> sep = ch CHR ''_''))"

text \<open>
  \<open>parse_internal_render_format_spec\<close> for a \<open>str\<close> (default type \<open>s\<close>, default
  alignment \<open><\<close>), step by step in the order of the mini-language.
\<close>

definition parse_format_spec :: "pystr \<Rightarrow> exn + format_spec" where
  "parse_format_spec spec =
     (let ((fill, al, fill_given), s1) = parse_fill_align spec;
          (sg, s2) = (case s1 of c # cs \<Rightarrow> if is_sign_element c then (Some c, cs) else (None, s1)
                               | [] \<Rightarrow> (None, s1));
          (z, s3) = (if starts_with (ch CHR ''z'') s2 then (True, tl s2) else (False, s2));
          (alt, s4) = (if starts_with (ch CHR ''#'') s3 then (True, tl s3) else (False, s3));
          (fill', s5) = (if \<not> fill_given \<and> starts_with (ch CHR ''0'') s4
                         then (ch CHR ''0'', tl s4) else (fill, s4));
          (w, s6) = get_integer s5;
          (sep, s7) = (if starts_with (ch CHR '','') s6 then (Some (ch CHR '',''), tl s6)
                       else (None, s6))
      in
        if starts_with (ch CHR ''_'') s7 \<and> sep \<noteq> None
        then Inl both_separators
        else
          let (sep', s8) = (if starts_with (ch CHR ''_'') s7 then (Some (ch CHR ''_''), tl s7)
                            else (sep, s7))
          in
            if starts_with (ch CHR '','') s8 \<and> sep' = Some (ch CHR ''_'')
            then Inl both_separators
            else
              let (dot, (pr, s9)) = (if starts_with (ch CHR ''.'') s8
                                     then (True, get_integer (tl s8)) else (False, (None, s8)))
              in
                if dot \<and> pr = None
                then Inl (value_error (lit ''Format specifier missing precision''))
                else if length s9 > 1
                then Inl (invalid_format_specifier spec)
                else
                  let t = (case s9 of [] \<Rightarrow> ch CHR ''s'' | c # cs \<Rightarrow> c)
                  in
                    (case sep' of
                       Some sp \<Rightarrow>
                         if thousands_ok sp t
                         then Inr \<lparr> fill_char = fill', align = al, sign = sg, no_neg_0 = z,
                                    alternate = alt, width = w, thousands_separators = sep',
                                    precision = pr, ftype = t \<rparr>
                         else Inl (value_error (lit ''Cannot specify '' @ quoted [sp]
                                                @ lit '' with '' @ type_code t @ lit ''.''))
                     | None \<Rightarrow>
                         Inr \<lparr> fill_char = fill', align = al, sign = sg, no_neg_0 = z,
                                alternate = alt, width = w, thousands_separators = sep',
                                precision = pr, ftype = t \<rparr>))"

text \<open>\<open>format_string_internal\<close>: what a string refuses, then truncation and padding.\<close>

definition format_string_internal :: "pystr \<Rightarrow> format_spec \<Rightarrow> exn + pystr" where
  "format_string_internal v f =
     (if sign f = Some (ch CHR '' '')
      then Inl (value_error (lit ''Space not allowed in string format specifier''))
      else if sign f \<noteq> None
      then Inl (value_error (lit ''Sign not allowed in string format specifier''))
      else if no_neg_0 f
      then Inl (value_error (lit ''Negative zero coercion (z) not allowed in string format specifier''))
      else if alternate f
      then Inl (value_error (lit ''Alternate form (#) not allowed in string format specifier''))
      else if align f = ch CHR ''=''
      then Inl (value_error (quoted (lit ''='')
                             @ lit '' alignment not allowed in string format specifier''))
      else
        let shown = (case precision f of None \<Rightarrow> v | Some p \<Rightarrow> take p v);
            total = (case width f of None \<Rightarrow> length shown | Some w \<Rightarrow> max w (length shown));
            pad = total - length shown;
            lpad = (if align f = ch CHR ''>'' then pad
                    else if align f = ch CHR ''^'' then pad div 2 else 0)
        in Inr (replicate lpad (fill_char f) @ shown @ replicate (pad - lpad) (fill_char f)))"

text \<open>\<open>format(v, spec)\<close> for a \<open>str\<close> \<open>v\<close>; the empty spec gives \<open>v\<close> itself.\<close>

definition py_format_str :: "pystr \<Rightarrow> pystr \<Rightarrow> exn + pystr" where
  "py_format_str v spec =
     (if spec = [] then Inr v
      else
        (case parse_format_spec spec of
           Inl e \<Rightarrow> Inl e
         | Inr f \<Rightarrow>
             if ftype f = ch CHR ''s'' then format_string_internal v f
             else Inl (value_error (lit ''Unknown format code '' @ type_code (ftype f)
                                    @ lit '' for object of type '' @ quoted (lit ''str'')))))"

text \<open>
  The expression of a field is a string constant or one of the two variables of
  \<open>review_code\<close> that the prompts mention.
\<close>

datatype fexpr = Const pystr | Req_code | Static_report

datatype fpart = Literal pystr | Field fexpr "fpart list"

fun eval_fexpr :: "pystr \<Rightarrow> pystr \<Rightarrow> fexpr \<Rightarrow> pystr" where
  "eval_fexpr code report (Const s) = s"
| "eval_fexpr code report Req_code = code"
| "eval_fexpr code report Static_report = report"

text \<open>
  Evaluation is left to right; the format spec of a field is built before the field
  is formatted, and the first exception ends the evaluation.
\<close>

fun eval_fpart :: "pystr \<Rightarrow> pystr \<Rightarrow> fpart \<Rightarrow> exn + pystr"
  and eval_joined :: "pystr \<Rightarrow> pystr \<Rightarrow> fpart list \<Rightarrow> exn + pystr" where
  "eval_fpart code report (Literal s) = Inr s"
| "eval_fpart code report (Field e spec) =
     (case eval_joined code report spec of
        Inl x \<Rightarrow> Inl x
      | Inr sp \<Rightarrow> py_format_str (eval_fexpr code report e) sp)"
| "eval_joined code report [] = Inr []"
| "eval_joined code report (p # ps) =
     (case eval_fpart code report p of
        Inl x \<Rightarrow> Inl x
      | Inr a \<Rightarrow>
         (case eval_joined code report ps of Inl x \<Rightarrow> Inl x | Inr b \<Rightarrow> Inr (a @ b)))"

section \<open>app.py: the two prompts\<close>

text \<open>
  The prompt for a configured remote credential, as the interpreter reads the
  f-string of the source: the braces of the JSON shape it means to show are not
  doubled, so they open replacement fields. The first is the constant \<open>"review"\<close>
  with everything up to the closing brace of the shape as its format spec, and that
  spec holds two more fields, each the constant \<open>"op"\<close> with the rest of its line as
  format spec.
\<close>

definition structured_prompt :: "fpart list" where
  \<open>structured_prompt =
     [Literal (lit ''\<newline>''
               @ lit ''You are an expert code reviewer and patch generator.\<newline>''
               @ lit ''Analyze the following Python code for logical errors, bugs, bad practices, and improvements.\<newline>''
               @ lit ''Return JSON only, no additional text. The JSON must have the following shape:\<newline>''),
      Field (Const (lit ''review''))
        [Literal (lit '' string,            // human-readable summary\<newline>''
                  @ lit ''  "patches": [                // array of edit operations; may be empty\<newline>''
                  @ lit ''    ''),
         Field (Const (lit ''op''))
           [Literal (lit ''"replace_line", "line": <1-based line number>, "content": "..."'')],
         Literal (lit '',\<newline>''
                  @ lit ''    ''),
         Field (Const (lit ''op''))
           [Literal (lit ''"replace_range", "start": <1-based start>, "end": <1-based end>, "content": "..."'')],
         Literal (lit ''\<newline>''
                  @ lit ''  ],\<newline>''
                  @ lit ''  "full_file": null|string     // optional full-file replacement as a string\<newline>'')],
      Literal (lit ''\<newline>''
               @ lit ''\<newline>''
               @ lit ''Code:\<newline>''),
      Field Req_code [],
      Literal (lit ''\<newline>''
               @ lit ''\<newline>''
               @ lit ''Static analysis (pylint):\<newline>''),
      Field Static_report [],
      Literal (lit ''\<newline>''
               @ lit ''\<newline>''
               @ lit ''If you cannot produce patches, return an empty patches array and still include a review string.\<newline>'')]\<close>

definition plain_prompt :: "fpart list" where
  \<open>plain_prompt =
     [Literal (lit ''You are an expert code reviewer.\<newline>''
               @ lit ''Analyze the following Python code for logical errors, bugs, bad practices, and improvements.\<newline>''
               @ lit ''Then summarize your findings.\<newline>''
               @ lit ''\<newline>''
               @ lit ''Code:\<newline>''),
      Field Req_code [],
      Literal (lit ''\<newline>''
               @ lit ''\<newline>''
               @ lit ''Static analysis (pylint):\<newline>''),
      Field Static_report [],
      Literal (lit ''\<newline>''
               @ lit ''\<newline>''
               @ lit ''Please provide a concise, numbered list of issues and suggested fixes.\<newline>'')]\<close>

definition compose_prompt :: "config \<Rightarrow> pystr \<Rightarrow> pystr \<Rightarrow> exn + pystr" where
  "compose_prompt cfg code report =
     (if str_truthy (GEMINI_API_KEY cfg) then eval_joined code report structured_prompt
      else eval_joined code report plain_prompt)"

section \<open>Decoding JSON\<close>

text \<open>
  \<open>json.loads\<close> of the standard library, as its scanner reads a \<open>str\<close>: white space is
  space, tab, line feed and carriage return; the literals are \<open>null\<close>, \<open>true\<close>,
  \<open>false\<close>, \<open>NaN\<close>, \<open>Infinity\<close> and \<open>-Infinity\<close>; a number is
  \<open>-?(0|[1-9][0-9]*)(.[0-9]+)?([eE][-+]?[0-9]+)?\<close>, an \<open>int\<close> when it has neither
  fraction nor exponent; a string may not hold a raw control character; an object
  with a repeated key keeps the last value. The interpreter's limits (depth of
  nesting, number of digits of an integer) are not modelled. Each scanner takes the text still to be
  read and returns the value with the text after it; \<open>None\<close> is the
  \<open>JSONDecodeError\<close>, whose message the caller throws away.
\<close>

definition is_ws :: "nat \<Rightarrow> bool" where
  "is_ws c = (c = 0x20 \<or> c = 0x09 \<or> c = 0x0A \<or> c = 0x0D)"

fun skip_ws :: "pystr \<Rightarrow> pystr" where
  "skip_ws [] = []"
| "skip_ws (c # cs) = (if is_ws c then skip_ws cs else c # cs)"

lemma skip_ws_length: "length (skip_ws s) \<le> length s"
  by (induction s) auto

definition strip_prefix :: "pystr \<Rightarrow> pystr \<Rightarrow> pystr option" where
  "strip_prefix p s = (if take (length p) s = p then Some (drop (length p) s) else None)"

text \<open>The four hexadecimal digits of a \<open>\uXXXX\<close> escape.\<close>

definition hex_digit :: "nat \<Rightarrow> nat option" where
  "hex_digit c =
     (if 48 \<le> c \<and> c \<le> 57 then Some (c - 48)
      else if 97 \<le> c \<and> c \<le> 102 then Some (c - 87)
      else if 65 \<le> c \<and> c \<le> 70 then Some (c - 55)
      else None)"

definition decode_uXXXX :: "pystr \<Rightarrow> (nat \<times> pystr) option" where
  "decode_uXXXX s =
     (case s of
        a # b # c # d # rest \<Rightarrow>
          (case (hex_digit a, hex_digit b, hex_digit c, hex_digit d) of
             (Some w, Some x, Some y, Some z) \<Rightarrow> Some (((w * 16 + x) * 16 + y) * 16 + z, rest)
           | _ \<Rightarrow> None)
      | _ \<Rightarrow> None)"

lemma decode_uXXXX_shorter: "decode_uXXXX s = Some (u, r) \<Longrightarrow> length r < length s"
  by (auto simp: decode_uXXXX_def split: list.splits option.splits)

definition backslash :: "nat \<Rightarrow> nat option" where
  \<open>backslash e =
     (if e = ch CHR ''"'' then Some (ch CHR ''"'')
      else if e = 0x5C then Some 0x5C
      else if e = ch CHR ''/'' then Some (ch CHR ''/'')
      else if e = ch CHR ''b'' then Some 0x08
      else if e = ch CHR ''f'' then Some 0x0C
      else if e = ch CHR ''n'' then Some 0x0A
      else if e = ch CHR ''r'' then Some 0x0D
      else if e = ch CHR ''t'' then Some 0x09
      else None)\<close>

definition emit :: "nat \<Rightarrow> (pystr \<times> pystr) option \<Rightarrow> (pystr \<times> pystr) option" where
  "emit c res = (case res of None \<Rightarrow> None | Some (s, r) \<Rightarrow> Some (c # s, r))"

text \<open>
  \<open>scanstring\<close>, called after the opening quote. A high surrogate escape directly
  followed by another \<open>\u\<close> escape reads that one too, and joins the two when the
  second is a low surrogate.
\<close>

function scanstring :: "pystr \<Rightarrow> (pystr \<times> pystr) option" where
  \<open>scanstring s =
     (case s of
        [] \<Rightarrow> None
      | c # cs \<Rightarrow>
          if c = ch CHR ''"'' then Some ([], cs)
          else if c = 0x5C then
            (case cs of
               [] \<Rightarrow> None
             | e # es \<Rightarrow>
                 if e = ch CHR ''u'' then
                   (case decode_uXXXX es of
                      None \<Rightarrow> None
                    | Some (uni, rest) \<Rightarrow>
                        if 0xD800 \<le> uni \<and> uni \<le> 0xDBFF \<and> take 2 rest = [0x5C, ch CHR ''u''] then
                          (case decode_uXXXX (drop 2 rest) of
                             None \<Rightarrow> None
                           | Some (uni2, rest2) \<Rightarrow>
                               if 0xDC00 \<le> uni2 \<and> uni2 \<le> 0xDFFF
                               then emit (0x10000 + ((uni - 0xD800) * 1024 + (uni2 - 0xDC00)))
                                      (scanstring rest2)
                               else emit uni (scanstring rest))
                        else emit uni (scanstring rest))
                 else
                   (case backslash e of
                      None \<Rightarrow> None
                    | Some d \<Rightarrow> emit d (scanstring es)))
          else if c < 0x20 then None
          else emit c (scanstring cs))\<close>
  by pat_completeness auto
termination
  by (relation "measure length") (auto dest!: decode_uXXXX_shorter)

declare scanstring.simps [simp del]

lemma skip_ws_Cons: "skip_ws s = c # cs \<Longrightarrow> length cs < length s"
  using skip_ws_length [of s] by simp

lemma skip_ws_less: "length s < n \<Longrightarrow> length (skip_ws s) < n"
  using skip_ws_length [of s] by simp

lemma scanstring_shorter: "scanstring s = Some (str, r) \<Longrightarrow> length r < length s"
proof (induction "length s" arbitrary: s str r rule: less_induct)
  case less
  have IH: "\<And>t str' r'. scanstring t = Some (str', r') \<Longrightarrow> length t < length s
              \<Longrightarrow> length r' < length s"
    using less.hyps by fastforce
  show ?case
  proof (cases s)
    case Nil
    with less.prems show ?thesis by (simp add: scanstring.simps [of "[]"])
  next
    case (Cons c cs)
    have tail: "\<And>str' t. scanstring cs = Some (str', t) \<Longrightarrow> length t < length s"
      using IH [of cs] Cons by simp
    have tail2: "\<And>e es str' t. cs = e # es \<Longrightarrow> scanstring es = Some (str', t)
                   \<Longrightarrow> length t < length s"
      using IH Cons by simp
    have esc: "\<And>e es u rest str' t. cs = e # es \<Longrightarrow> decode_uXXXX es = Some (u, rest)
                   \<Longrightarrow> scanstring rest = Some (str', t) \<Longrightarrow> length t < length s"
      using IH Cons decode_uXXXX_shorter by fastforce
    have pair: "\<And>e es u rest u2 rest2 str' t. cs = e # es \<Longrightarrow> decode_uXXXX es = Some (u, rest)
                   \<Longrightarrow> decode_uXXXX (drop 2 rest) = Some (u2, rest2)
                   \<Longrightarrow> scanstring rest2 = Some (str', t) \<Longrightarrow> length t < length s"
    proof -
      fix e es u rest u2 rest2 str' t
      assume a: "cs = e # es" "decode_uXXXX es = Some (u, rest)"
        "decode_uXXXX (drop 2 rest) = Some (u2, rest2)" "scanstring rest2 = Some (str', t)"
      have "length rest2 < length (drop 2 rest)" using a(3) by (rule decode_uXXXX_shorter)
      moreover have "length rest < length es" using a(2) by (rule decode_uXXXX_shorter)
      ultimately have "length rest2 < length s" using Cons a(1) by simp
      with a(4) show "length t < length s" by (rule IH)
    qed
    from less.prems Cons have unfolded: "scanstring (c # cs) = Some (str, r)"
      by simp
    show ?thesis
      using unfolded
      apply (subst (asm) scanstring.simps)
      apply (simp add: emit_def split: if_splits list.splits option.splits prod.splits)
      using Cons apply simp
      using pair apply blast
      using esc apply blast
      using esc apply blast
      using tail2 apply blast
      using tail apply blast
      done
  qed
qed

lemma skip_ws_less4: "length s < n \<Longrightarrow> 4 * length (skip_ws s) < Suc (4 * n)"
  using skip_ws_length [of s] by simp

definition scan_exponent :: "pystr \<Rightarrow> pystr \<times> pystr" where
  "scan_exponent s =
     (case s of
        [] \<Rightarrow> ([], s)
      | e # r \<Rightarrow>
          if e = ch CHR ''e'' \<or> e = ch CHR ''E'' then
            (let (sg, r1) = (case r of
                               [] \<Rightarrow> ([], r)
                             | c # cs \<Rightarrow> if c = ch CHR ''+'' \<or> c = ch CHR ''-''
                                         then ([c], cs) else ([], r))
             in if takeWhile ascii_digit r1 = [] then ([], s)
                else (e # sg @ takeWhile ascii_digit r1, dropWhile ascii_digit r1))
          else ([], s))"

definition scan_fraction :: "pystr \<Rightarrow> pystr \<times> pystr" where
  "scan_fraction s =
     (case s of
        p # q # r \<Rightarrow>
          if p = ch CHR ''.'' \<and> ascii_digit q
          then (p # q # takeWhile ascii_digit r, dropWhile ascii_digit r)
          else ([], s)
      | _ \<Rightarrow> ([], s))"

definition scan_number :: "pystr \<Rightarrow> (pyval \<times> pystr) option" where
  "scan_number s =
     (let (neg, s1) = (if starts_with (ch CHR ''-'') s then (True, tl s) else (False, s))
      in case s1 of
           [] \<Rightarrow> None
         | d # ds \<Rightarrow>
             if \<not> ascii_digit d then None
             else
               let (ipart, s2) = (if d = ch CHR ''0'' then ([d], ds)
                                  else (d # takeWhile ascii_digit ds, dropWhile ascii_digit ds));
                   (frac, s3) = scan_fraction s2;
                   (ex, s4) = scan_exponent s3
               in if frac = [] \<and> ex = []
                  then Some (PInt (if neg then - int (digits_value 0 ipart)
                                   else int (digits_value 0 ipart)), s4)
                  else Some (PFloat ((if neg then [ch CHR ''-''] else []) @ ipart @ frac @ ex), s4))"

text \<open>\<open>dict(pairs)\<close>: a repeated key keeps its first position and takes the last value.\<close>

fun dict_set :: "(pystr \<times> pyval) list \<Rightarrow> pystr \<Rightarrow> pyval \<Rightarrow> (pystr \<times> pyval) list" where
  "dict_set [] k v = [(k, v)]"
| "dict_set ((k', v') # d) k v = (if k' = k then (k', v) # d else (k', v') # dict_set d k v)"

definition dict_of :: "(pystr \<times> pyval) list \<Rightarrow> (pystr \<times> pyval) list" where
  "dict_of pairs = foldl (\<lambda>d (k, v). dict_set d k v) [] pairs"

text \<open>
  The scanner proper: \<open>scan_once\<close> reads one value, \<open>scan_array\<close> and \<open>scan_object\<close>
  are entered after the opening bracket, \<open>scan_items\<close> and \<open>scan_pairs\<close> are their
  loops. The loops compare lengths before they recurse, which makes the recursion
  visibly terminate; \<open>scan_items_loop\<close> and \<open>scan_pairs_loop\<close> below show that the
  comparisons always hold.
\<close>

function scan_once :: "pystr \<Rightarrow> (pyval \<times> pystr) option"
  and scan_array :: "pystr \<Rightarrow> (pyval list \<times> pystr) option"
  and scan_items :: "pystr \<Rightarrow> (pyval list \<times> pystr) option"
  and scan_object :: "pystr \<Rightarrow> ((pystr \<times> pyval) list \<times> pystr) option"
  and scan_pairs :: "pystr \<Rightarrow> ((pystr \<times> pyval) list \<times> pystr) option"
  where
  \<open>scan_once s =
     (case s of
        [] \<Rightarrow> None
      | c # cs \<Rightarrow>
          if c = ch CHR ''"'' then
            (case scanstring cs of None \<Rightarrow> None | Some (str, r) \<Rightarrow> Some (PStr str, r))
          else if c = ch CHR ''{'' then
            (case scan_object cs of None \<Rightarrow> None | Some (pairs, r) \<Rightarrow> Some (PDict (dict_of pairs), r))
          else if c = ch CHR ''['' then
            (case scan_array cs of None \<Rightarrow> None | Some (vs, r) \<Rightarrow> Some (PList vs, r))
          else if strip_prefix (lit ''null'') s \<noteq> None then
            Some (PNone, drop 4 s)
          else if strip_prefix (lit ''true'') s \<noteq> None then
            Some (PBool True, drop 4 s)
          else if strip_prefix (lit ''false'') s \<noteq> None then
            Some (PBool False, drop 5 s)
          else if strip_prefix (lit ''NaN'') s \<noteq> None then
            Some (PFloat (lit ''NaN''), drop 3 s)
          else if strip_prefix (lit ''Infinity'') s \<noteq> None then
            Some (PFloat (lit ''Infinity''), drop 8 s)
          else if strip_prefix (lit ''-Infinity'') s \<noteq> None then
            Some (PFloat (lit ''-Infinity''), drop 9 s)
          else scan_number s)\<close>
| \<open>scan_array s =
     (case skip_ws s of
        [] \<Rightarrow> None
      | c # cs \<Rightarrow> if c = ch CHR '']'' then Some ([], cs) else scan_items (c # cs))\<close>
| \<open>scan_items s =
     (case scan_once s of
        None \<Rightarrow> None
      | Some (v, r) \<Rightarrow>
          (case skip_ws r of
             [] \<Rightarrow> None
           | c # cs \<Rightarrow>
               if c = ch CHR '']'' then Some ([v], cs)
               else if c = ch CHR '','' \<and> length cs < length s then
                 (case scan_items (skip_ws cs) of
                    None \<Rightarrow> None
                  | Some (vs, r') \<Rightarrow> Some (v # vs, r'))
               else None))\<close>
| \<open>scan_object s =
     (case skip_ws s of
        [] \<Rightarrow> None
      | c # cs \<Rightarrow>
          if c = ch CHR ''}'' then Some ([], cs)
          else if c = ch CHR ''"'' then scan_pairs cs
          else None)\<close>
| \<open>scan_pairs s =
     (case scanstring s of
        None \<Rightarrow> None
      | Some (key, r) \<Rightarrow>
          (case skip_ws r of
             [] \<Rightarrow> None
           | d # ds \<Rightarrow>
               if d = ch CHR '':'' \<and> length ds < length s then
                 (case scan_once (skip_ws ds) of
                    None \<Rightarrow> None
                  | Some (v, r2) \<Rightarrow>
                      (case skip_ws r2 of
                         [] \<Rightarrow> None
                       | e # es \<Rightarrow>
                           if e = ch CHR ''}'' then Some ([(key, v)], es)
                           else if e = ch CHR '','' \<and> length es < length s then
                             (case skip_ws es of
                                [] \<Rightarrow> None
                              | q # qs \<Rightarrow>
                                  if q = ch CHR ''"'' then
                                    (case scan_pairs qs of
                                       None \<Rightarrow> None
                                     | Some (ps, r3) \<Rightarrow> Some ((key, v) # ps, r3))
                                  else None)
                           else None))
               else None))\<close>
  by pat_completeness auto
termination
  by (relation "measure (\<lambda>x. case x of
          Inl (Inl s) \<Rightarrow> 4 * length s
        | Inl (Inr s) \<Rightarrow> 4 * length s + 2
        | Inr (Inl s) \<Rightarrow> 4 * length s + 1
        | Inr (Inr (Inl s)) \<Rightarrow> 4 * length s + 2
        | Inr (Inr (Inr s)) \<Rightarrow> 4 * length s + 1)")
     (auto dest: skip_ws_Cons intro: skip_ws_less skip_ws_less4)

declare scan_once.simps [simp del] scan_array.simps [simp del] scan_items.simps [simp del]
  scan_object.simps [simp del] scan_pairs.simps [simp del]

text \<open>
  \<open>json.loads\<close>: a leading byte order mark is refused, white space around the single
  value is skipped, and anything after it is an error.
\<close>

definition json_loads :: "pystr \<Rightarrow> pyval option" where
  "json_loads s =
     (if starts_with 0xFEFF s then None
      else
        (case scan_once (skip_ws s) of
           None \<Rightarrow> None
         | Some (v, r) \<Rightarrow> if skip_ws r = [] then Some v else None))"

lemma dropWhile_le: "length (dropWhile P xs) \<le> length xs"
  by (induction xs) auto

lemma dropWhile_le_Suc: "length (dropWhile P xs) \<le> Suc (length xs)"
  using dropWhile_le [of P xs] by simp

lemma dropWhile_le_Suc2: "length (dropWhile P xs) \<le> Suc (Suc (length xs))"
  using dropWhile_le [of P xs] by simp

lemma scan_exponent_le: "length (snd (scan_exponent s)) \<le> length s"
  by (simp add: scan_exponent_def Let_def dropWhile_le_Suc dropWhile_le_Suc2
      split: list.split prod.split)

lemma scan_fraction_le: "length (snd (scan_fraction s)) \<le> length s"
  by (simp add: scan_fraction_def dropWhile_le_Suc2 split: list.split)

lemma scan_number_shorter:
  assumes "scan_number s = Some (v, r)"
  shows "length r < length s"
proof -
  define s1 where "s1 = (if starts_with (ch CHR ''-'') s then tl s else s)"
  have s1_le: "length s1 \<le> length s"
    by (simp add: s1_def)
  from assms obtain d ds where s1: "s1 = d # ds" and dig: "ascii_digit d"
    by (cases s1) (auto simp: scan_number_def s1_def Let_def split: if_splits)
  define s2 where "s2 = (if d = ch CHR ''0'' then ds else dropWhile ascii_digit ds)"
  have s2_le: "length s2 \<le> length ds"
    by (simp add: s2_def dropWhile_le)
  have r: "r = snd (scan_exponent (snd (scan_fraction s2)))"
    using assms s1 dig
    by (auto simp: scan_number_def s1_def s2_def Let_def split: if_splits prod.splits)
  have "length r \<le> length s2"
    unfolding r using scan_exponent_le [of "snd (scan_fraction s2)"] scan_fraction_le [of s2]
    by simp
  with s2_le s1 s1_le show ?thesis by simp
qed


lemma scan_all_shorter:
  "(\<forall>v r. scan_once s = Some (v, r) \<longrightarrow> length r < length s)
   \<and> (\<forall>v r. scan_items s = Some (v, r) \<longrightarrow> length r < length s)
   \<and> (\<forall>v r. scan_pairs s = Some (v, r) \<longrightarrow> length r < length s)
   \<and> (\<forall>v r. scan_array s = Some (v, r) \<longrightarrow> length r < length s)
   \<and> (\<forall>v r. scan_object s = Some (v, r) \<longrightarrow> length r < length s)"
proof (induction "length s" arbitrary: s rule: less_induct)
  case less
  have IH_once: "\<And>t v r. length t < length s \<Longrightarrow> scan_once t = Some (v, r) \<Longrightarrow> length r < length t"
    and IH_items: "\<And>t v r. length t < length s \<Longrightarrow> scan_items t = Some (v, r) \<Longrightarrow> length r < length t"
    and IH_pairs: "\<And>t v r. length t < length s \<Longrightarrow> scan_pairs t = Some (v, r) \<Longrightarrow> length r < length t"
    and IH_array: "\<And>t v r. length t < length s \<Longrightarrow> scan_array t = Some (v, r) \<Longrightarrow> length r < length t"
    and IH_object: "\<And>t v r. length t < length s \<Longrightarrow> scan_object t = Some (v, r) \<Longrightarrow> length r < length t"
    using less.hyps by blast+
  have once: "length r < length s" if a: "scan_once s = Some (v, r)" for v r
  proof (cases s)
    case Nil
    with a show ?thesis by (simp add: scan_once.simps [of "[]"])
  next
    case (Cons c cs)
    have str: "\<And>x t. scanstring cs = Some (x, t) \<Longrightarrow> length t < length s"
      using scanstring_shorter [of cs] Cons by fastforce
    have obj: "\<And>x t. scan_object cs = Some (x, t) \<Longrightarrow> length t < length s"
      using IH_object [of cs] Cons by fastforce
    have arr: "\<And>x t. scan_array cs = Some (x, t) \<Longrightarrow> length t < length s"
      using IH_array [of cs] Cons by fastforce
    have num: "\<And>x t. scan_number s = Some (x, t) \<Longrightarrow> length t < length s"
      using scan_number_shorter by blast
    have lits: "\<And>k. 0 < k \<Longrightarrow> length s - k < length s"
      using Cons by simp
    from a show ?thesis
      apply (subst (asm) scan_once.simps)
      apply (simp only: Cons list.case)
      apply (simp only: Cons [symmetric])
      apply (auto split: if_splits option.splits prod.splits dest: str obj arr num simp: lits)
      done
  qed
  have items: "length r < length s" if a: "scan_items s = Some (v, r)" for v r
  proof -
    from a obtain x t where x: "scan_once s = Some (x, t)"
      by (subst (asm) scan_items.simps) (auto split: option.splits)
    then have t: "length t < length s" by (rule once)
    from a x obtain c cs where sk: "skip_ws t = c # cs"
      by (subst (asm) scan_items.simps) (auto split: list.splits)
    have cs: "length cs < length s"
      using sk t skip_ws_Cons [of t c cs] by simp
    have rec: "\<And>y u. scan_items (skip_ws cs) = Some (y, u) \<Longrightarrow> length u < length s"
      using IH_items [of "skip_ws cs"] cs skip_ws_length [of cs] by fastforce
    from a x sk cs show ?thesis
      apply (subst (asm) scan_items.simps)
      apply (auto split: if_splits option.splits prod.splits dest: rec)
      done
  qed
  have pairs: "length r < length s" if a: "scan_pairs s = Some (v, r)" for v r
  proof -
    from a obtain k t where k: "scanstring s = Some (k, t)"
      by (subst (asm) scan_pairs.simps) (auto split: option.splits)
    then have t: "length t < length s" by (rule scanstring_shorter)
    from a k obtain d ds where sk: "skip_ws t = d # ds"
      by (subst (asm) scan_pairs.simps) (auto split: list.splits)
    have ds: "length ds < length s"
      using sk t skip_ws_Cons [of t d ds] by simp
    have vs: "length (skip_ws ds) < length s"
      using ds skip_ws_length [of ds] by simp
    from a k sk obtain x t2 where x: "scan_once (skip_ws ds) = Some (x, t2)"
      by (subst (asm) scan_pairs.simps) (auto split: option.splits if_splits)
    have t2: "length t2 < length s"
      using IH_once [OF vs x] vs by simp
    from a k sk x obtain e es where sk2: "skip_ws t2 = e # es"
      by (subst (asm) scan_pairs.simps) (auto split: list.splits if_splits)
    have es: "length es < length s"
      using sk2 t2 skip_ws_Cons [of t2 e es] by simp
    have rec: "\<And>q qs y u. skip_ws es = q # qs \<Longrightarrow> scan_pairs qs = Some (y, u) \<Longrightarrow> length u < length s"
    proof -
      fix q qs y u
      assume q: "skip_ws es = q # qs" and y: "scan_pairs qs = Some (y, u)"
      have "length qs < length s" using skip_ws_Cons [OF q] es by simp
      with IH_pairs [OF this y] show "length u < length s" by simp
    qed
    from a k sk x sk2 es show ?thesis
      apply (subst (asm) scan_pairs.simps)
      apply (auto split: if_splits option.splits prod.splits list.splits dest: rec)
      done
  qed
  have array: "length r < length s" if a: "scan_array s = Some (v, r)" for v r
  proof -
    from a obtain c cs where sk: "skip_ws s = c # cs"
      by (subst (asm) scan_array.simps) (auto split: list.splits)
    have cs: "length cs < length s"
      using sk by (rule skip_ws_Cons)
    have le: "length (c # cs) \<le> length s"
      using skip_ws_length [of s] sk by simp
    have rec: "\<And>y u. scan_items (c # cs) = Some (y, u) \<Longrightarrow> length u < length s"
    proof -
      fix y u
      assume y: "scan_items (c # cs) = Some (y, u)"
      show "length u < length s"
      proof (cases "length (c # cs) < length s")
        case True
        from IH_items [OF True y] True show ?thesis by simp
      next
        case False
        with le have "length (c # cs) = length s" by simp
        moreover have "skip_ws s = s"
          using sk calculation by (induction s) (auto split: if_splits dest: skip_ws_Cons)
        ultimately have "c # cs = s" using sk by simp
        with y items show ?thesis by simp
      qed
    qed
    from a sk cs show ?thesis
      apply (subst (asm) scan_array.simps)
      apply (auto split: if_splits dest: rec)
      done
  qed
  have object: "length r < length s" if a: "scan_object s = Some (v, r)" for v r
  proof -
    from a obtain c cs where sk: "skip_ws s = c # cs"
      by (subst (asm) scan_object.simps) (auto split: list.splits)
    have cs: "length cs < length s"
      using sk by (rule skip_ws_Cons)
    have rec: "\<And>y u. scan_pairs cs = Some (y, u) \<Longrightarrow> length u < length s"
      using IH_pairs [OF cs] cs by fastforce
    from a sk cs show ?thesis
      apply (subst (asm) scan_object.simps)
      apply (auto split: if_splits dest: rec)
      done
  qed
  from once items pairs array object show ?case by blast
qed

lemma scan_once_shorter: "scan_once s = Some (v, r) \<Longrightarrow> length r < length s"
  using scan_all_shorter [of s] by blast

lemma scan_items_loop:
  \<open>scan_items s =
     (case scan_once s of
        None \<Rightarrow> None
      | Some (v, r) \<Rightarrow>
          (case skip_ws r of
             [] \<Rightarrow> None
           | c # cs \<Rightarrow>
               if c = ch CHR '']'' then Some ([v], cs)
               else if c = ch CHR '','' then
                 (case scan_items (skip_ws cs) of
                    None \<Rightarrow> None
                  | Some (vs, r') \<Rightarrow> Some (v # vs, r'))
               else None))\<close>
proof (cases "scan_once s")
  case None
  then show ?thesis by (subst scan_items.simps) simp
next
  case (Some a)
  obtain v r where a: "a = (v, r)" by (cases a)
  have r: "length r < length s"
    using Some a scan_once_shorter by blast
  show ?thesis
  proof (cases "skip_ws r")
    case Nil
    with Some a show ?thesis by (subst scan_items.simps) simp
  next
    case (Cons c cs)
    have "length cs < length s"
      using skip_ws_Cons [OF Cons] r by simp
    with Some a Cons show ?thesis by (subst scan_items.simps) simp
  qed
qed

lemma scan_pairs_loop:
  \<open>scan_pairs s =
     (case scanstring s of
        None \<Rightarrow> None
      | Some (key, r) \<Rightarrow>
          (case skip_ws r of
             [] \<Rightarrow> None
           | d # ds \<Rightarrow>
               if d = ch CHR '':'' then
                 (case scan_once (skip_ws ds) of
                    None \<Rightarrow> None
                  | Some (v, r2) \<Rightarrow>
                      (case skip_ws r2 of
                         [] \<Rightarrow> None
                       | e # es \<Rightarrow>
                           if e = ch CHR ''}'' then Some ([(key, v)], es)
                           else if e = ch CHR '','' then
                             (case skip_ws es of
                                [] \<Rightarrow> None
                              | q # qs \<Rightarrow>
                                  if q = ch CHR ''"'' then
                                    (case scan_pairs qs of
                                       None \<Rightarrow> None
                                     | Some (ps, r3) \<Rightarrow> Some ((key, v) # ps, r3))
                                  else None)
                           else None))
               else None))\<close>
proof (cases "scanstring s")
  case None
  then show ?thesis by (subst scan_pairs.simps) simp
next
  case (Some a)
  obtain key r where a: "a = (key, r)" by (cases a)
  have r: "length r < length s"
    using Some a scanstring_shorter by blast
  show ?thesis
  proof (cases "skip_ws r")
    case Nil
    with Some a show ?thesis by (subst scan_pairs.simps) simp
  next
    case (Cons d ds)
    have ds: "length ds < length s"
      using skip_ws_Cons [OF Cons] r by simp
    show ?thesis
    proof (cases "scan_once (skip_ws ds)")
      case None
      with Some a Cons ds show ?thesis by (subst scan_pairs.simps) simp
    next
      case inner: (Some b)
      obtain v r2 where b: "b = (v, r2)" by (cases b)
      have r2: "length r2 < length s"
        using inner b scan_once_shorter [of "skip_ws ds" v r2] skip_ws_length [of ds] ds by simp
      show ?thesis
      proof (cases "skip_ws r2")
        case Nil
        with Some a Cons ds inner b show ?thesis by (subst scan_pairs.simps) simp
      next
        case tail: (Cons e es)
        have "length es < length s"
          using skip_ws_Cons [OF tail] r2 by simp
        with Some a Cons ds inner b tail show ?thesis by (subst scan_pairs.simps) simp
      qed
    qed
  qed
qed

section \<open>app.py: reading the provider's answer\<close>

text \<open>
  \<open>re.search(r"(\{[\s\S]*\})", review_text)\<close> and its group: the text from the first
  opening brace to the last closing brace after it, if there is one.
\<close>

definition re_search_object :: "pystr \<Rightarrow> pystr option" where
  "re_search_object s =
     (case dropWhile (\<lambda>c. c \<noteq> ch CHR ''{'') s of
        [] \<Rightarrow> None
      | b # t \<Rightarrow>
          (let body = rev (dropWhile (\<lambda>c. c \<noteq> ch CHR ''}'') (rev t))
           in if body = [] then None else Some (b # body)))"

text \<open>\<open>d.get(k, default)\<close>.\<close>

definition dict_get :: "(pystr \<times> pyval) list \<Rightarrow> pystr \<Rightarrow> pyval \<Rightarrow> pyval" where
  "dict_get d k dflt = (case map_of d k of None \<Rightarrow> dflt | Some v \<Rightarrow> v)"

text \<open>
  The variable \<open>decoded\<close> of \<open>review_code\<close>: the whole text as JSON if that parses
  (whatever value it gives); otherwise the matched braces as JSON; otherwise \<open>None\<close>.
\<close>

definition decode_review :: "pystr \<Rightarrow> pyval" where
  "decode_review review_text =
     (case json_loads review_text of
        Some v \<Rightarrow> v
      | None \<Rightarrow>
          (case re_search_object review_text of
             None \<Rightarrow> PNone
           | Some g \<Rightarrow> (case json_loads g of Some v \<Rightarrow> v | None \<Rightarrow> PNone)))"

text \<open>
  The last block of \<open>review_code\<close>, from \<open>result_payload = ...\<close> to the \<open>return\<close>: the
  payload is a \<open>dict\<close> with the keys \<open>review\<close> and \<open>static_report\<close>; the keys
  \<open>patches\<close> and \<open>full_file\<close> are added only when a credential is configured, the
  review is a string and a JSON object was decoded from it.
\<close>

definition normalize_response :: "config \<Rightarrow> pyval \<Rightarrow> pystr \<Rightarrow> (pystr \<rightharpoonup> pyval)" where
  "normalize_response cfg review_text static_report =
     (let result_payload = [lit ''review'' \<mapsto> review_text,
                            lit ''static_report'' \<mapsto> PStr static_report]
      in
        if str_truthy (GEMINI_API_KEY cfg) then
          (case review_text of
             PStr raw \<Rightarrow>
               (case decode_review raw of
                  PDict decoded \<Rightarrow>
                    let p1 = result_payload(lit ''review'' \<mapsto>
                                dict_get decoded (lit ''review'') review_text);
                        p2 = p1(lit ''patches'' \<mapsto> dict_get decoded (lit ''patches'') (PList []))
                    in if map_of decoded (lit ''full_file'') \<noteq> None
                       then p2(lit ''full_file'' \<mapsto> dict_get decoded (lit ''full_file'') PNone)
                       else p2
                | _ \<Rightarrow> result_payload)
           | _ \<Rightarrow> result_payload)
        else result_payload)"


section \<open>Hosts and states for concrete runs\<close>

text \<open>A host with neither torch nor transformers installed, and the globals at import time.\<close>

definition bare_host :: ml_host where
  "bare_host =
     \<lparr> torch_importable = False, cuda_is_available = False, has_mps = False,
       mps_is_available = False,
       import_transformers =
         Some (PyExc ''ModuleNotFoundError'' (lit ''No module named transformers'')),
       tokenizer_from_pretrained = (\<lambda>n. Inr 1),
       model_from_pretrained = (\<lambda>n. Inr 2),
       model_to = (\<lambda>m d. None),
       local_generate = (\<lambda>t m d p n. Inr (PStr [])),
       remote_generate = (\<lambda>k g p n. Inr (PStr [])) \<rparr>"

definition unloaded :: mstate where
  "unloaded = \<lparr> tokenizer = None, model = None, device = None \<rparr>"

section \<open>app.py: the request handler\<close>

text \<open>
  What \<open>review_code\<close> raises: an \<open>HTTPException\<close> with its status and detail, or
  any other exception, which nothing in the handler catches.
\<close>

definition MAX_CODE_LENGTH :: nat where
  "MAX_CODE_LENGTH = 20000"

datatype failure = HTTPException nat pystr | Unhandled exn

text \<open>
  The process state the handler runs in: the files on disk and the module globals
  of model.py. \<open>trace\<close> is a log the model keeps of the calls to
  \<open>run_static_analysis\<close> and \<open>generate_review\<close>, in order, so that "before either is
  invoked" can be stated.
\<close>

record world =
  files :: files
  globals :: mstate
  trace :: "string list"

text \<open>
  \<open>review_code\<close>. The test \<open>not req.code or not isinstance(req.code, str)\<close> holds for
  the empty string and for every value that is not a string; these are the first
  branch of the string case and the last case. The steps after it are in source
  order: static analysis, prompt, generation (whose exceptions become status 500),
  normalisation.
\<close>

definition review_code ::
  "config \<Rightarrow> os_host \<Rightarrow> ml_host \<Rightarrow> world \<Rightarrow> pyval
     \<Rightarrow> (failure + (pystr \<rightharpoonup> pyval)) \<times> world" where
  "review_code cfg oh mh w code =
     (case code of
        PStr s \<Rightarrow>
          if s = [] then (Inl (HTTPException 400 (lit ''Missing code in request'')), w)
          else if length s > MAX_CODE_LENGTH
          then (Inl (HTTPException 413 (lit ''Code payload too large'')), w)
          else
            let w1 = w\<lparr>trace := trace w @ [''run_static_analysis'']\<rparr>;
                (analysed, fs) = run_static_analysis oh (files w1) code;
                w2 = w1\<lparr>files := fs\<rparr>
            in
              (case analysed of
                 Inl e \<Rightarrow> (Inl (Unhandled e), w2)
               | Inr static_report \<Rightarrow>
                  (case compose_prompt cfg s static_report of
                     Inl e \<Rightarrow> (Inl (Unhandled e), w2)
                   | Inr prompt \<Rightarrow>
                      let w3 = w2\<lparr>trace := trace w2 @ [''generate_review'']\<rparr>;
                          (generated, g) = generate_review cfg mh (globals w3) prompt 800;
                          w4 = w3\<lparr>globals := g\<rparr>
                      in
                        (case generated of
                           Inl e \<Rightarrow>
                             (Inl (HTTPException 500 (lit ''Model generation error: '' @ exn_str e)),
                              w4)
                         | Inr review_text \<Rightarrow>
                             (Inr (normalize_response cfg review_text static_report), w4))))
      | _ \<Rightarrow> (Inl (HTTPException 400 (lit ''Missing code in request'')), w))"

text \<open>A configuration with a remote credential, and the state of a fresh process.\<close>

definition keyed :: config where
  "keyed = load_config [''GEMINI_API_KEY'' \<mapsto> lit ''secret'']"

definition fresh :: world where
  "fresh = \<lparr> files = Map.empty, globals = unloaded, trace = [] \<rparr>"

section \<open>Properties of analysis.py\<close>



text \<open>
  The scratch file is written before the \<open>try\<close>: a string holding a lone surrogate
  makes \<open>run_static_analysis\<close> raise, and the file it created is still there.
\<close>

lemma run_static_analysis_lone_surrogate:
  "run_static_analysis silent_host Map.empty (PStr [0xD800])
   = (Inl (PyExc ''UnicodeEncodeError'' (lit ''surrogates not allowed'')),
      [lit ''/tmp/tmpk3v9x1.py'' \<mapsto> []])"
  by (simp add: run_static_analysis_def MAX_ANALYSIS_CODE_def named_temporary_file_def
      silent_host_def utf8_char_def)




section \<open>Properties of model.py\<close>

lemma ensure_model_loaded:
  "model st \<noteq> None \<Longrightarrow> tokenizer st \<noteq> None \<Longrightarrow> ensure_model cfg h st = (Inr (), st)"
  by (simp add: ensure_model_def)

lemma move_to_device_keeps:
  "model (move_to_device h m st) = model st \<and> tokenizer (move_to_device h m st) = tokenizer st"
  by (simp add: move_to_device_def split: option.splits device.splits)

lemma ensure_model_twice:
  "snd (ensure_model cfg h (snd (ensure_model cfg h st))) = snd (ensure_model cfg h st)"
proof (cases "model st \<noteq> None \<and> tokenizer st \<noteq> None")
  case True
  then show ?thesis by (simp add: ensure_model_def)
next
  case False
  note unloaded = this
  show ?thesis
  proof (cases "import_transformers h")
    case (Some e)
    with unloaded show ?thesis by (simp add: ensure_model_def)
  next
    case None
    note imported = this
    show ?thesis
    proof (cases "tokenizer_from_pretrained h (MODEL_NAME cfg)")
      case (Inl e)
      with unloaded imported show ?thesis by (simp add: ensure_model_def)
    next
      case (Inr t)
      note tok = this
      show ?thesis
      proof (cases "model_from_pretrained h (MODEL_NAME cfg)")
        case (Inl e)
        with unloaded imported tok show ?thesis
          by (cases "model st") (simp_all add: ensure_model_def)
      next
        case (Inr m)
        with unloaded imported tok show ?thesis
          by (simp add: ensure_model_def move_to_device_keeps)
      qed
    qed
  qed
qed

text \<open>
  C10. When \<open>_model\<close> and \<open>_tokenizer\<close> are both set, \<open>_ensure_model\<close> returns at once
  and leaves \<open>_tokenizer\<close>, \<open>_model\<close> and \<open>_device\<close> as they were; and from any state,
  calling it twice in sequence leaves the globals as one call does.
\<close>

theorem ensure_model_idempotent:
  "(model st \<noteq> None \<and> tokenizer st \<noteq> None \<longrightarrow> ensure_model cfg h st = (Inr (), st))
   \<and> snd (ensure_model cfg h (snd (ensure_model cfg h st))) = snd (ensure_model cfg h st)"
  using ensure_model_loaded [of st cfg h] ensure_model_twice [of cfg h st] by blast

theorem ensure_model_idempotent_witness:
  "model \<lparr>tokenizer = Some 1, model = Some 2, device = None\<rparr> \<noteq> None
   \<and> tokenizer \<lparr>tokenizer = Some 1, model = Some 2, device = None\<rparr> \<noteq> None
   \<and> ensure_model (load_config Map.empty) bare_host
         \<lparr>tokenizer = Some 1, model = Some 2, device = None\<rparr>
       = (Inr (), \<lparr>tokenizer = Some 1, model = Some 2, device = None\<rparr>)"
  using ensure_model_idempotent
    [of "\<lparr>tokenizer = Some 1, model = Some 2, device = None\<rparr>" "load_config Map.empty" bare_host]
  by simp

text \<open>
  C5. With no remote credential configured, if \<open>_ensure_model\<close> raises \<open>e\<close> then
  \<open>generate_review\<close> returns (it does not raise), for every prompt and token budget,
  the fixed text "[DEV REVIEW] Model unavailable: " followed by \<open>str(e)\<close> and the
  fixed closing sentence.
\<close>

theorem generate_review_dev_fallback:
  assumes "\<not> str_truthy (GEMINI_API_KEY cfg)"
    and "fst (ensure_model cfg h st) = Inl e"
  shows "fst (generate_review cfg h st prompt max_new_tokens)
         = Inr (PStr (lit ''[DEV REVIEW] Model unavailable: '' @ exn_str e
                      @ lit ''\<newline>\<newline>This is a fallback review used for development.''))"
  using assms by (cases "ensure_model cfg h st") (simp add: generate_review_def dev_review_def)

theorem generate_review_dev_fallback_witness:
  "\<not> str_truthy (GEMINI_API_KEY (load_config Map.empty))
   \<and> fst (ensure_model (load_config Map.empty) bare_host unloaded)
       = Inl (PyExc ''ModuleNotFoundError'' (lit ''No module named transformers''))
   \<and> fst (generate_review (load_config Map.empty) bare_host unloaded (lit ''review this'') 800)
       = Inr (PStr (lit ''[DEV REVIEW] Model unavailable: No module named transformers''
                    @ lit ''\<newline>\<newline>This is a fallback review used for development.''))"
proof -
  have key: "\<not> str_truthy (GEMINI_API_KEY (load_config Map.empty))"
    by (simp add: load_config_def py_or_def)
  have fails: "fst (ensure_model (load_config Map.empty) bare_host unloaded)
       = Inl (PyExc ''ModuleNotFoundError'' (lit ''No module named transformers''))"
    by (simp add: ensure_model_def bare_host_def unloaded_def)
  show ?thesis
    using key fails generate_review_dev_fallback [OF key fails, of "lit ''review this''" 800]
    by simp
qed

section \<open>Properties of the request handler\<close>

text \<open>
  C6. A request whose code is a string longer than 20000 is rejected with status 413,
  and the state is returned as it was, with nothing added to the trace: neither
  \<open>run_static_analysis\<close> nor \<open>generate_review\<close> has been called. A code of length
  exactly 20000 is not rejected with 413, and the handler goes on to call
  \<open>run_static_analysis\<close>.
\<close>

theorem review_code_oversized:
  "(length s > 20000 \<longrightarrow>
      review_code cfg oh mh w (PStr s)
      = (Inl (HTTPException 413 (lit ''Code payload too large'')), w))
   \<and> (length s = 20000 \<longrightarrow>
      fst (review_code cfg oh mh w (PStr s)) \<noteq> Inl (HTTPException 413 (lit ''Code payload too large''))
      \<and> take (Suc (length (trace w))) (trace (snd (review_code cfg oh mh w (PStr s))))
          = trace w @ [''run_static_analysis''])"
proof (intro conjI impI)
  assume "length s > 20000"
  then show "review_code cfg oh mh w (PStr s)
      = (Inl (HTTPException 413 (lit ''Code payload too large'')), w)"
    by (auto simp: review_code_def MAX_CODE_LENGTH_def)
next
  assume len: "length s = 20000"
  then have ne: "s \<noteq> []" by auto
  show "fst (review_code cfg oh mh w (PStr s)) \<noteq> Inl (HTTPException 413 (lit ''Code payload too large''))"
    using len ne
    by (simp add: review_code_def MAX_CODE_LENGTH_def Let_def split: prod.splits sum.splits)
  show "take (Suc (length (trace w))) (trace (snd (review_code cfg oh mh w (PStr s))))
          = trace w @ [''run_static_analysis'']"
    using len ne
    by (simp add: review_code_def MAX_CODE_LENGTH_def Let_def split: prod.splits sum.splits)
qed

theorem review_code_oversized_witness:
  "length (replicate 20001 (97::nat)) > 20000
   \<and> review_code keyed silent_host bare_host fresh (PStr (replicate 20001 97))
       = (Inl (HTTPException 413 (lit ''Code payload too large'')), fresh)
   \<and> length (replicate 20000 (97::nat)) = 20000
   \<and> fst (review_code keyed silent_host bare_host fresh (PStr (replicate 20000 97)))
       \<noteq> Inl (HTTPException 413 (lit ''Code payload too large''))
   \<and> take (Suc (length (trace fresh)))
        (trace (snd (review_code keyed silent_host bare_host fresh (PStr (replicate 20000 97)))))
       = trace fresh @ [''run_static_analysis'']"
proof -
  have big: "length (replicate 20001 (97::nat)) > 20000" by simp
  have edge: "length (replicate 20000 (97::nat)) = 20000" by simp
  note a = review_code_oversized [of "replicate 20001 97" keyed silent_host bare_host fresh]
  note b = review_code_oversized [of "replicate 20000 97" keyed silent_host bare_host fresh]
  from a big have 1: "review_code keyed silent_host bare_host fresh (PStr (replicate 20001 97))
       = (Inl (HTTPException 413 (lit ''Code payload too large'')), fresh)"
    by blast
  from b edge have 2: "fst (review_code keyed silent_host bare_host fresh (PStr (replicate 20000 97)))
       \<noteq> Inl (HTTPException 413 (lit ''Code payload too large''))
   \<and> take (Suc (length (trace fresh)))
        (trace (snd (review_code keyed silent_host bare_host fresh (PStr (replicate 20000 97)))))
       = trace fresh @ [''run_static_analysis'']"
    by blast
  from big edge 1 2 show ?thesis by blast
qed




section \<open>Properties of the response normaliser\<close>

lemmas scan_simps = json_loads_def scan_once.simps scan_array.simps scan_items.simps scan_object.simps
  scan_pairs.simps scanstring.simps scan_number_def scan_fraction_def scan_exponent_def
  strip_prefix_def starts_with_def is_ws_def emit_def dict_of_def ascii_digit_def backslash_def

lemma keyed_truthy: "str_truthy (GEMINI_API_KEY keyed)"
  by (simp add: keyed_def load_config_def py_or_def)

lemma normalize_response_decoded:
  assumes "str_truthy (GEMINI_API_KEY cfg)" and "decode_review raw = PDict decoded"
  shows "normalize_response cfg (PStr raw) static_report
         = (let p2 = [lit ''review'' \<mapsto> dict_get decoded (lit ''review'') (PStr raw),
                      lit ''static_report'' \<mapsto> PStr static_report,
                      lit ''patches'' \<mapsto> dict_get decoded (lit ''patches'') (PList [])]
            in if map_of decoded (lit ''full_file'') \<noteq> None
               then p2(lit ''full_file'' \<mapsto> dict_get decoded (lit ''full_file'') PNone)
               else p2)"
  using assms by (auto simp: normalize_response_def Let_def fun_eq_iff)

lemma normalize_response_plain:
  assumes "str_truthy (GEMINI_API_KEY cfg)" and "\<not> isinstance_dict (decode_review raw)"
  shows "normalize_response cfg (PStr raw) static_report
         = [lit ''review'' \<mapsto> PStr raw, lit ''static_report'' \<mapsto> PStr static_report]"
  using assms by (cases "decode_review raw") (simp_all add: normalize_response_def)

lemma loads_roundtrip:
  \<open>json_loads (lit ''{"review": "R", "patches": [], "full_file": null}'')
   = Some (PDict [(lit ''review'', PStr (lit ''R'')), (lit ''patches'', PList []),
                  (lit ''full_file'', PNone)])\<close>
  by (simp add: scan_simps)

lemma decode_roundtrip:
  \<open>decode_review (lit ''{"review": "R", "patches": [], "full_file": null}'')
   = PDict [(lit ''review'', PStr (lit ''R'')), (lit ''patches'', PList []),
            (lit ''full_file'', PNone)]\<close>
  by (simp only: decode_review_def loads_roundtrip option.case)

text \<open>
  C1. With a credential configured, the provider text
  \<open>{"review": "R", "patches": [], "full_file": null}\<close> is normalised to the payload
  with \<open>review = "R"\<close>, \<open>patches = []\<close>, the key \<open>full_file\<close> present with value
  \<open>None\<close>, and \<open>static_report\<close> as it was passed in.
\<close>

theorem normalize_roundtrip:
  assumes "str_truthy (GEMINI_API_KEY cfg)"
  shows \<open>normalize_response cfg
           (PStr (lit ''{"review": "R", "patches": [], "full_file": null}'')) static_report
         = [lit ''review'' \<mapsto> PStr (lit ''R''),
            lit ''static_report'' \<mapsto> PStr static_report,
            lit ''patches'' \<mapsto> PList [],
            lit ''full_file'' \<mapsto> PNone]\<close>
  using normalize_response_decoded [OF assms decode_roundtrip, of static_report]
  by (simp add: dict_get_def)

theorem normalize_roundtrip_witness:
  \<open>str_truthy (GEMINI_API_KEY keyed)
   \<and> normalize_response keyed
        (PStr (lit ''{"review": "R", "patches": [], "full_file": null}'')) (lit ''ok'')
        (lit ''full_file'') = Some PNone
   \<and> normalize_response keyed
        (PStr (lit ''{"review": "R", "patches": [], "full_file": null}'')) (lit ''ok'')
        (lit ''patches'') = Some (PList [])
   \<and> normalize_response keyed
        (PStr (lit ''{"review": "R", "patches": [], "full_file": null}'')) (lit ''ok'')
        (lit ''review'') = Some (PStr (lit ''R''))
   \<and> normalize_response keyed
        (PStr (lit ''{"review": "R", "patches": [], "full_file": null}'')) (lit ''ok'')
        (lit ''static_report'') = Some (PStr (lit ''ok''))\<close>
  using keyed_truthy normalize_roundtrip [OF keyed_truthy, of "lit ''ok''"] by simp

lemma decode_not_json: \<open>decode_review (lit ''not json at all'') = PNone\<close>
  by (simp add: decode_review_def re_search_object_def scan_simps)

text \<open>
  C2, as stated, fails: for the text "not json at all" the payload has no \<open>patches\<close>
  key, so \<open>patches\<close> is not the empty list.
\<close>

theorem normalize_fallback_counterexample:
  \<open>normalize_response keyed (PStr (lit ''not json at all'')) (lit ''ok'') (lit ''patches'')
   \<noteq> Some (PList [])\<close>
proof -
  have \<open>\<not> isinstance_dict (decode_review (lit ''not json at all''))\<close>
    unfolding decode_not_json by simp
  from normalize_response_plain [OF keyed_truthy this, of "lit ''ok''"]
  show ?thesis by simp
qed

text \<open>
  C2, amended. With a credential configured, for every provider text from which no
  JSON object is decoded, the payload is the two-key baseline: \<open>review\<close> is the raw
  text, \<open>static_report\<close> is passed through, and the keys \<open>patches\<close> and \<open>full_file\<close>
  are absent.
\<close>

theorem normalize_fallback:
  assumes "str_truthy (GEMINI_API_KEY cfg)"
    and "\<not> isinstance_dict (decode_review raw)"
  shows "normalize_response cfg (PStr raw) static_report
         = [lit ''review'' \<mapsto> PStr raw, lit ''static_report'' \<mapsto> PStr static_report]
         \<and> normalize_response cfg (PStr raw) static_report (lit ''patches'') = None
         \<and> normalize_response cfg (PStr raw) static_report (lit ''full_file'') = None"
  using normalize_response_plain [OF assms, of static_report] by simp

theorem normalize_fallback_witness:
  \<open>str_truthy (GEMINI_API_KEY keyed)
   \<and> \<not> isinstance_dict (decode_review (lit ''not json at all''))
   \<and> normalize_response keyed (PStr (lit ''not json at all'')) (lit ''ok'')
       = [lit ''review'' \<mapsto> PStr (lit ''not json at all''),
          lit ''static_report'' \<mapsto> PStr (lit ''ok'')]
   \<and> normalize_response keyed (PStr (lit ''not json at all'')) (lit ''ok'') (lit ''patches'')
       = None\<close>
proof -
  have nd: \<open>\<not> isinstance_dict (decode_review (lit ''not json at all''))\<close>
    unfolding decode_not_json by simp
  show ?thesis
    using keyed_truthy nd normalize_fallback [OF keyed_truthy nd, of "lit ''ok''"] by blast
qed

lemma decode_review_priority:
  "decode_review raw =
     (case json_loads raw of
        Some v \<Rightarrow> v
      | None \<Rightarrow>
          (case re_search_object raw of
             None \<Rightarrow> PNone
           | Some g \<Rightarrow> (case json_loads g of Some v \<Rightarrow> v | None \<Rightarrow> PNone)))"
  by (simp add: decode_review_def)

lemma dropWhile_neq_first:
  "a \<notin> set pre \<Longrightarrow> dropWhile (\<lambda>c. c \<noteq> a) (pre @ a # rest) = a # rest"
  by (induction pre) auto

lemma dropWhile_neq_none:
  "a \<notin> set s \<Longrightarrow> dropWhile (\<lambda>c. c \<noteq> a) s = []"
  by (induction s) auto

lemma rev_dropWhile_last:
  assumes "b \<notin> set post"
  shows "rev (dropWhile (\<lambda>c. c \<noteq> b) (rev (mid @ b # post))) = mid @ [b]"
proof -
  have "rev (mid @ b # post) = rev post @ b # rev mid" by simp
  moreover have "b \<notin> set (rev post)" using assms by simp
  ultimately have "dropWhile (\<lambda>c. c \<noteq> b) (rev (mid @ b # post)) = b # rev mid"
    using dropWhile_neq_first [of b "rev post" "rev mid"] by simp
  then show ?thesis by simp
qed

lemma re_search_object_greedy:
  assumes "ch CHR ''{'' \<notin> set pre" and "ch CHR ''}'' \<notin> set post"
  shows "re_search_object (pre @ [ch CHR ''{''] @ mid @ [ch CHR ''}''] @ post)
         = Some ([ch CHR ''{''] @ mid @ [ch CHR ''}''])"
proof -
  have shape: "pre @ [ch CHR ''{''] @ mid @ [ch CHR ''}''] @ post
               = pre @ ch CHR ''{'' # (mid @ ch CHR ''}'' # post)"
    by (simp only: append_Cons append_Nil)
  have front: "dropWhile (\<lambda>c. c \<noteq> ch CHR ''{'') (pre @ ch CHR ''{'' # (mid @ ch CHR ''}'' # post))
               = ch CHR ''{'' # (mid @ ch CHR ''}'' # post)"
    using assms(1) by (rule dropWhile_neq_first)
  have behind: "rev (dropWhile (\<lambda>c. c \<noteq> ch CHR ''}'') (rev (mid @ ch CHR ''}'' # post)))
                = mid @ [ch CHR ''}'']"
    using assms(2) by (rule rev_dropWhile_last)
  have "re_search_object (pre @ ch CHR ''{'' # (mid @ ch CHR ''}'' # post))
        = Some (ch CHR ''{'' # (mid @ [ch CHR ''}'']))"
    unfolding re_search_object_def front list.case Let_def behind
    by (simp only: append_is_Nil_conv list.distinct simp_thms if_False)
  then show ?thesis
    by (simp only: shape append_Cons append_Nil)
qed

lemma re_search_object_none:
  assumes "ch CHR ''{'' \<notin> set s"
  shows "re_search_object s = None"
proof -
  have "dropWhile (\<lambda>c. c \<noteq> ch CHR ''{'') s = []"
    using assms by (rule dropWhile_neq_none)
  then show ?thesis
    unfolding re_search_object_def by (simp only: list.case)
qed

lemma loads_embedded_full:
  \<open>json_loads (lit ''Here is the result:\<newline>{"review":"ok","patches":[{"op":"replace_line","line":2,"content":"pass"}]}\<newline>Thanks.'') = None\<close>
  by (simp add: scan_simps)

lemma search_embedded:
  \<open>re_search_object (lit ''Here is the result:\<newline>{"review":"ok","patches":[{"op":"replace_line","line":2,"content":"pass"}]}\<newline>Thanks.'')
   = Some (lit ''{"review":"ok","patches":[{"op":"replace_line","line":2,"content":"pass"}]}'')\<close>
  by (simp add: re_search_object_def)

lemma loads_embedded_object:
  \<open>json_loads (lit ''{"review":"ok","patches":[{"op":"replace_line","line":2,"content":"pass"}]}'')
   = Some (PDict [(lit ''review'', PStr (lit ''ok'')),
                  (lit ''patches'', PList [PDict [(lit ''op'', PStr (lit ''replace_line'')),
                                                  (lit ''line'', PInt 2),
                                                  (lit ''content'', PStr (lit ''pass''))]])])\<close>
  by (simp add: scan_simps)

lemma decode_embedded:
  \<open>decode_review (lit ''Here is the result:\<newline>{"review":"ok","patches":[{"op":"replace_line","line":2,"content":"pass"}]}\<newline>Thanks.'')
   = PDict [(lit ''review'', PStr (lit ''ok'')),
            (lit ''patches'', PList [PDict [(lit ''op'', PStr (lit ''replace_line'')),
                                            (lit ''line'', PInt 2),
                                            (lit ''content'', PStr (lit ''pass''))]])]\<close>
  by (simp only: decode_review_def loads_embedded_full search_embedded loads_embedded_object
      option.case)

lemma normalize_embedded:
  assumes "str_truthy (GEMINI_API_KEY cfg)"
  shows \<open>normalize_response cfg (PStr (lit ''Here is the result:\<newline>{"review":"ok","patches":[{"op":"replace_line","line":2,"content":"pass"}]}\<newline>Thanks.'')) static_report
         = [lit ''review'' \<mapsto> PStr (lit ''ok''),
            lit ''static_report'' \<mapsto> PStr static_report,
            lit ''patches'' \<mapsto> PList [PDict [(lit ''op'', PStr (lit ''replace_line'')),
                                                 (lit ''line'', PInt 2),
                                                 (lit ''content'', PStr (lit ''pass''))]]]\<close>
  using normalize_response_decoded [OF assms decode_embedded, of static_report]
  by (simp add: dict_get_def)

lemma normalize_keeps_patches:
  assumes "str_truthy (GEMINI_API_KEY cfg)" and "decode_review raw = PDict decoded"
    and "map_of decoded (lit ''patches'') = Some ps"
  shows "normalize_response cfg (PStr raw) static_report (lit ''patches'') = Some ps"
  using normalize_response_decoded [OF assms(1,2), of static_report] assms(3)
  by (simp add: dict_get_def Let_def)

lemma loads_two_patches:
  \<open>json_loads (lit ''{"patches":[{"line":7},{"line":3},{"line":5}]}'')
   = Some (PDict [(lit ''patches'', PList [PDict [(lit ''line'', PInt 7)],
                                           PDict [(lit ''line'', PInt 3)],
                                           PDict [(lit ''line'', PInt 5)]])])\<close>
  by (simp add: scan_simps)

text \<open>
  C8. With a credential configured: if the whole text parses as JSON, its value is
  what is decoded; only if it does not, the text from the first opening brace to the
  last closing brace is parsed. That text is the greedy match (nothing before the
  first brace and nothing after the last one belongs to it). For the text of the
  spec's example the payload has \<open>review = "ok"\<close> and a one-element patch list whose
  entry has \<open>line = 2\<close>. Whatever list the decoded object holds under \<open>patches\<close> is
  the payload's \<open>patches\<close>, unchanged: same entries, same order.
\<close>

theorem normalize_embedded_recovery:
  assumes "str_truthy (GEMINI_API_KEY cfg)"
  shows \<open>(\<forall>v. json_loads raw = Some v \<longrightarrow> decode_review raw = v)
       \<and> (json_loads raw = None \<longrightarrow>
            decode_review raw
            = (case re_search_object raw of
                 None \<Rightarrow> PNone
               | Some g \<Rightarrow> (case json_loads g of Some v \<Rightarrow> v | None \<Rightarrow> PNone)))
       \<and> (ch CHR ''{'' \<notin> set pre \<and> ch CHR ''}'' \<notin> set post \<longrightarrow>
            re_search_object (pre @ [ch CHR ''{''] @ mid @ [ch CHR ''}''] @ post)
            = Some ([ch CHR ''{''] @ mid @ [ch CHR ''}'']))
       \<and> normalize_response cfg (PStr (lit ''Here is the result:\<newline>{"review":"ok","patches":[{"op":"replace_line","line":2,"content":"pass"}]}\<newline>Thanks.'')) static_report
         = [lit ''review'' \<mapsto> PStr (lit ''ok''),
            lit ''static_report'' \<mapsto> PStr static_report,
            lit ''patches'' \<mapsto> PList [PDict [(lit ''op'', PStr (lit ''replace_line'')),
                                                 (lit ''line'', PInt 2),
                                                 (lit ''content'', PStr (lit ''pass''))]]]
       \<and> (\<forall>decoded ps. decode_review raw = PDict decoded
              \<and> map_of decoded (lit ''patches'') = Some ps
            \<longrightarrow> normalize_response cfg (PStr raw) static_report (lit ''patches'') = Some ps)\<close>
proof (intro conjI allI impI)
  fix v assume "json_loads raw = Some v"
  then show "decode_review raw = v" by (simp add: decode_review_priority)
next
  assume "json_loads raw = None"
  then show "decode_review raw
            = (case re_search_object raw of
                 None \<Rightarrow> PNone
               | Some g \<Rightarrow> (case json_loads g of Some v \<Rightarrow> v | None \<Rightarrow> PNone))"
    by (simp add: decode_review_priority)
next
  assume "ch CHR ''{'' \<notin> set pre \<and> ch CHR ''}'' \<notin> set post"
  then show "re_search_object (pre @ [ch CHR ''{''] @ mid @ [ch CHR ''}''] @ post)
            = Some ([ch CHR ''{''] @ mid @ [ch CHR ''}''])"
    using re_search_object_greedy [of pre post mid] by blast
next
  show \<open>normalize_response cfg (PStr (lit ''Here is the result:\<newline>{"review":"ok","patches":[{"op":"replace_line","line":2,"content":"pass"}]}\<newline>Thanks.'')) static_report
         = [lit ''review'' \<mapsto> PStr (lit ''ok''),
            lit ''static_report'' \<mapsto> PStr static_report,
            lit ''patches'' \<mapsto> PList [PDict [(lit ''op'', PStr (lit ''replace_line'')),
                                                 (lit ''line'', PInt 2),
                                                 (lit ''content'', PStr (lit ''pass''))]]]\<close>
    using assms by (rule normalize_embedded)
next
  fix decoded ps
  assume "decode_review raw = PDict decoded \<and> map_of decoded (lit ''patches'') = Some ps"
  then show "normalize_response cfg (PStr raw) static_report (lit ''patches'') = Some ps"
    using normalize_keeps_patches [OF assms] by blast
qed

theorem normalize_embedded_recovery_witness:
  \<open>str_truthy (GEMINI_API_KEY keyed)
   \<and> json_loads (lit ''{"review": "R", "patches": [], "full_file": null}'')
       = Some (PDict [(lit ''review'', PStr (lit ''R'')), (lit ''patches'', PList []),
                      (lit ''full_file'', PNone)])
   \<and> decode_review (lit ''{"review": "R", "patches": [], "full_file": null}'')
       = PDict [(lit ''review'', PStr (lit ''R'')), (lit ''patches'', PList []),
                (lit ''full_file'', PNone)]
   \<and> json_loads (lit ''Here is the result:\<newline>{"review":"ok","patches":[{"op":"replace_line","line":2,"content":"pass"}]}\<newline>Thanks.'') = None
   \<and> ch CHR ''{'' \<notin> set (lit ''Here is the result:\<newline>'')
   \<and> ch CHR ''}'' \<notin> set (lit ''\<newline>Thanks.'')
   \<and> re_search_object (lit ''Here is the result:\<newline>'' @ [ch CHR ''{'']
         @ lit ''"review":"ok","patches":[{"op":"replace_line","line":2,"content":"pass"}]''
         @ [ch CHR ''}''] @ lit ''\<newline>Thanks.'')
       = Some ([ch CHR ''{'']
               @ lit ''"review":"ok","patches":[{"op":"replace_line","line":2,"content":"pass"}]''
               @ [ch CHR ''}''])
   \<and> map_of [(lit ''patches'', PList [PDict [(lit ''line'', PInt 7)],
                                        PDict [(lit ''line'', PInt 3)],
                                        PDict [(lit ''line'', PInt 5)]])] (lit ''patches'')
       = Some (PList [PDict [(lit ''line'', PInt 7)], PDict [(lit ''line'', PInt 3)],
                      PDict [(lit ''line'', PInt 5)]])
   \<and> normalize_response keyed (PStr (lit ''{"patches":[{"line":7},{"line":3},{"line":5}]}''))
         (lit ''ok'') (lit ''patches'')
       = Some (PList [PDict [(lit ''line'', PInt 7)], PDict [(lit ''line'', PInt 3)],
                      PDict [(lit ''line'', PInt 5)]])\<close>
proof -
  let ?R = \<open>lit ''{"review": "R", "patches": [], "full_file": null}''\<close>
  let ?E = \<open>lit ''Here is the result:\<newline>{"review":"ok","patches":[{"op":"replace_line","line":2,"content":"pass"}]}\<newline>Thanks.''\<close>
  let ?T = \<open>lit ''{"patches":[{"line":7},{"line":3},{"line":5}]}''\<close>
  let ?pre = \<open>lit ''Here is the result:\<newline>''\<close>
  let ?mid = \<open>lit ''"review":"ok","patches":[{"op":"replace_line","line":2,"content":"pass"}]''\<close>
  let ?post = \<open>lit ''\<newline>Thanks.''\<close>
  let ?ps = \<open>PList [PDict [(lit ''line'', PInt 7)], PDict [(lit ''line'', PInt 3)],
                      PDict [(lit ''line'', PInt 5)]]\<close>
  have pre: "ch CHR ''{'' \<notin> set ?pre" by simp
  have post: "ch CHR ''}'' \<notin> set ?post" by simp
  have dec_T: "decode_review ?T = PDict [(lit ''patches'', ?ps)]"
    by (simp only: decode_review_def loads_two_patches option.case)
  have look: "map_of [(lit ''patches'', ?ps)] (lit ''patches'') = Some ?ps"
    by simp
  note r = normalize_embedded_recovery [OF keyed_truthy, where raw = ?R and pre = ?pre
      and post = ?post and mid = ?mid and static_report = "lit ''ok''"]
  note e = normalize_embedded_recovery [OF keyed_truthy, where raw = ?E and pre = ?pre
      and post = ?post and mid = ?mid and static_report = "lit ''ok''"]
  note t = normalize_embedded_recovery [OF keyed_truthy, where raw = ?T and pre = ?pre
      and post = ?post and mid = ?mid and static_report = "lit ''ok''"]
  from r loads_roundtrip have 1: "decode_review ?R
       = PDict [(lit ''review'', PStr (lit ''R'')), (lit ''patches'', PList []),
                (lit ''full_file'', PNone)]"
    by blast
  from e pre post have 2: "re_search_object (?pre @ [ch CHR ''{''] @ ?mid @ [ch CHR ''}''] @ ?post)
       = Some ([ch CHR ''{''] @ ?mid @ [ch CHR ''}''])"
    by blast
  from t dec_T look have 3: "normalize_response keyed (PStr ?T) (lit ''ok'') (lit ''patches'')
       = Some ?ps"
    by blast
  from keyed_truthy loads_roundtrip 1 loads_embedded_full pre post 2 look 3
  show ?thesis by blast
qed

section \<open>Properties of the prompts\<close>

lemma replace_line_spec_invalid:
  \<open>py_format_str v (lit ''"replace_line", "line": <1-based line number>, "content": "..."'')
   = Inl (invalid_format_specifier (lit ''"replace_line", "line": <1-based line number>, "content": "..."''))\<close>
  by (simp add: py_format_str_def parse_format_spec_def parse_fill_align_def is_alignment_token_def
      is_sign_element_def starts_with_def get_integer_def ascii_digit_def)

lemma structured_prompt_raises:
  \<open>eval_joined code report structured_prompt
   = Inl (invalid_format_specifier (lit ''"replace_line", "line": <1-based line number>, "content": "..."''))\<close>
  unfolding structured_prompt_def
  by (simp add: replace_line_spec_invalid del: list.map)

lemma plain_prompt_value:
  \<open>eval_joined code report plain_prompt
   = Inr (lit ''You are an expert code reviewer.\<newline>''
          @ lit ''Analyze the following Python code for logical errors, bugs, bad practices, and improvements.\<newline>''
          @ lit ''Then summarize your findings.\<newline>\<newline>Code:\<newline>''
          @ code
          @ lit ''\<newline>\<newline>Static analysis (pylint):\<newline>''
          @ report
          @ lit ''\<newline>\<newline>Please provide a concise, numbered list of issues and suggested fixes.\<newline>'')\<close>
  unfolding plain_prompt_def
  by (simp add: py_format_str_def)

text \<open>
  C3 fails on the code. With a credential configured, composing the prompt raises
  \<open>ValueError\<close> for every code and every report: the first replacement field the
  f-string formats is the constant \<open>"op"\<close> with the format spec
  \<open>"replace_line", "line": <1-based line number>, "content": "..."\<close>, which is not
  a valid format spec. No prompt text is produced.
\<close>

theorem compose_prompt_structured_raises:
  assumes "str_truthy (GEMINI_API_KEY cfg)"
  shows \<open>compose_prompt cfg code report
         = Inl (invalid_format_specifier (lit ''"replace_line", "line": <1-based line number>, "content": "..."''))
         \<and> exn_class (invalid_format_specifier (lit ''"replace_line", "line": <1-based line number>, "content": "..."''))
           = ''ValueError''\<close>
  using assms
  by (simp only: compose_prompt_def structured_prompt_raises if_True
      invalid_format_specifier_def value_error_def exn.sel simp_thms)

theorem compose_prompt_structured_raises_witness:
  \<open>str_truthy (GEMINI_API_KEY keyed)
   \<and> compose_prompt keyed (lit ''x = 1'') (lit ''ok'')
       = Inl (PyExc ''ValueError''
               (lit ''Invalid format specifier '' @ [39]
                @ lit ''"replace_line", "line": <1-based line number>, "content": "..."'' @ [39]
                @ lit '' for object of type '' @ [39] @ lit ''str'' @ [39]))\<close>
proof -
  have \<open>compose_prompt keyed (lit ''x = 1'') (lit ''ok'')
         = Inl (invalid_format_specifier (lit ''"replace_line", "line": <1-based line number>, "content": "..."''))\<close>
    using compose_prompt_structured_raises [OF keyed_truthy, of "lit ''x = 1''" "lit ''ok''"]
    by (rule conjunct1)
  then show ?thesis
    using keyed_truthy
    by (simp only: invalid_format_specifier_def value_error_def quoted_def append_assoc simp_thms)
qed

text \<open>
  So with a credential configured the handler ends in that unhandled \<open>ValueError\<close>
  for every request that passes validation and analysis; \<open>generate_review\<close> is never
  called and the normalisation of a structured answer is never reached.
\<close>

lemma review_code_structured_raises:
  assumes "str_truthy (GEMINI_API_KEY cfg)" and "s \<noteq> []" and "length s \<le> 20000"
    and "fst (run_static_analysis oh (files w) (PStr s)) = Inr report"
  shows \<open>fst (review_code cfg oh mh w (PStr s))
         = Inl (Unhandled (invalid_format_specifier (lit ''"replace_line", "line": <1-based line number>, "content": "..."'')))
         \<and> trace (snd (review_code cfg oh mh w (PStr s))) = trace w @ [''run_static_analysis'']\<close>
proof -
  obtain fs where run: "run_static_analysis oh (files w) (PStr s) = (Inr report, fs)"
    using assms(4) by (cases "run_static_analysis oh (files w) (PStr s)") simp
  show ?thesis
    using assms(1,2,3) run structured_prompt_raises [of s report]
    by (simp add: review_code_def compose_prompt_def MAX_CODE_LENGTH_def Let_def del: list.map)
qed

text \<open>Without a credential the prompt is the code and the report between fixed framing text.\<close>

lemma compose_prompt_plain:
  assumes "\<not> str_truthy (GEMINI_API_KEY cfg)"
  shows \<open>compose_prompt cfg code report
   = Inr (lit ''You are an expert code reviewer.\<newline>''
          @ lit ''Analyze the following Python code for logical errors, bugs, bad practices, and improvements.\<newline>''
          @ lit ''Then summarize your findings.\<newline>\<newline>Code:\<newline>''
          @ code
          @ lit ''\<newline>\<newline>Static analysis (pylint):\<newline>''
          @ report
          @ lit ''\<newline>\<newline>Please provide a concise, numbered list of issues and suggested fixes.\<newline>'')\<close>
  using assms by (simp only: compose_prompt_def plain_prompt_value if_False)

end
